theory Spec2Isabelle
  imports Main "HOL-Library.Sublist"
begin

section \<open>gitlab\_repo\_import.py: importing bare git repositories into GitLab\<close>

text \<open>
  A shallow embedding of \<^verbatim>\<open>src/gitlab_repo_import.py\<close>. The class
  \<^verbatim>\<open>GitLabRepoImport\<close> becomes a record of the attributes its methods read, each method a function
  that takes the state of the outside world and returns the new one together with its
  outcome. Everything the script reaches through a library (the filesystem, the two external
  commands, the JSON parser, the GitLab client) is a field of an environment record, so a
  theorem holds whatever those collaborators do.
\<close>

subsection \<open>Python strings and \<^verbatim>\<open>os.path\<close>\<close>

text \<open>\<^verbatim>\<open>s.startswith(p)\<close> and \<^verbatim>\<open>s.endswith(p)\<close>.\<close>

definition startswith :: "string \<Rightarrow> string \<Rightarrow> bool" where
  "startswith s p = (take (length p) s = p)"

definition endswith :: "string \<Rightarrow> string \<Rightarrow> bool" where
  "endswith s p = (length p \<le> length s \<and> drop (length s - length p) s = p)"

text \<open>
  \<^verbatim>\<open>posixpath.basename(p)\<close>: \<^verbatim>\<open>i = p.rfind('/') + 1; return p[i:]\<close>, the part
  after the last slash (empty when the path ends with a slash).
\<close>

definition basename :: "string \<Rightarrow> string" where
  "basename p = rev (takeWhile (\<lambda>c. c \<noteq> CHR ''/'') (rev p))"

text \<open>
  \<^verbatim>\<open>posixpath.join(a, b)\<close>: an absolute \<^verbatim>\<open>b\<close> replaces \<^verbatim>\<open>a\<close>; otherwise
  one slash separates them unless \<^verbatim>\<open>a\<close> is empty or already ends with a slash.
\<close>

definition path_join :: "string \<Rightarrow> string \<Rightarrow> string" where
  "path_join a b =
     (if startswith b ''/'' then b
      else if a = [] \<or> endswith a ''/'' then a @ b
      else a @ ''/'' @ b)"

text \<open>
  \<^verbatim>\<open>re.sub('\.git$', '', s)\<close>. Without \<^verbatim>\<open>re.MULTILINE\<close> the anchor matches at the
  end of the string and just before a newline that ends the string, so there is at most one
  match: a final \<^verbatim>\<open>.git\<close>, or a \<^verbatim>\<open>.git\<close> in front of a final newline.
\<close>

definition re_sub_dot_git :: "string \<Rightarrow> string" where
  "re_sub_dot_git s =
     (if endswith s ''.git'' then take (length s - 4) s
      else if endswith s (''.git'' @ [CHR 0x0A]) then take (length s - 5) s @ [CHR 0x0A]
      else s)"

subsection \<open>Names of one repository (\<^verbatim>\<open>do_repo\<close>, lines 192 to 198)\<close>

text \<open>
  \<^verbatim>\<open>
  repo_name = os.path.basename(repo_path)
  if not repo_name.endswith('.git'):
      project_name = repo_name
      repo_name += '.git'
  else:
      project_name = re.sub('\.git$', '', repo_name)
  dest_path = os.path.join(create_path, repo_name)
  \<close>
  \<open>repo_names\<close> returns the pair \<open>(repo_name, project_name)\<close>.
\<close>

definition repo_names :: "string \<Rightarrow> string \<times> string" where
  "repo_names repo_path =
     (let repo_name = basename repo_path in
      if \<not> endswith repo_name ''.git'' then (repo_name @ ''.git'', repo_name)
      else (repo_name, re_sub_dot_git repo_name))"

definition dest_path_of :: "string \<Rightarrow> string \<Rightarrow> string" where
  "dest_path_of create_path repo_path = path_join create_path (fst (repo_names repo_path))"

definition project_name_of :: "string \<Rightarrow> string" where
  "project_name_of repo_path = snd (repo_names repo_path)"

text \<open>\<^verbatim>\<open>create_path = os.path.join(self.repos_dir, group_name)\<close> (\<^verbatim>\<open>run\<close>, line 153).\<close>

definition create_path_of :: "string \<Rightarrow> string \<Rightarrow> string" where
  "create_path_of repos_dir group_name = path_join repos_dir group_name"

text \<open>
  The specification's reading of the same names: the stem is the base name with one trailing
  \<^verbatim>\<open>.git\<close> taken off when there is one.
\<close>

definition spec_stem :: "string \<Rightarrow> string" where
  "spec_stem b = (if suffix ''.git'' b then butlast (butlast (butlast (butlast b))) else b)"

subsection \<open>Python values, exceptions, the log and the outside world\<close>

text \<open>
  The values a settings dictionary and a project attribute hold. Python compares a
  \<^verbatim>\<open>bool\<close> with an \<^verbatim>\<open>int\<close> numerically (\<^verbatim>\<open>True == 1\<close>); every other pair
  of different kinds is unequal.
\<close>

datatype pyval = PNone | PBool bool | PInt int | PStr string

fun py_eq :: "pyval \<Rightarrow> pyval \<Rightarrow> bool" where
  "py_eq (PBool a) (PInt i) = ((if a then 1 else 0) = i)"
| "py_eq (PInt i) (PBool a) = (i = (if a then 1 else 0))"
| "py_eq a b = (a = b)"

text \<open>
  What \<^verbatim>\<open>json.loads\<close> returns. Numbers carry an integer only: the script never looks
  inside one. An object holds the items of the resulting \<^verbatim>\<open>dict\<close>.
\<close>

datatype json = JNull | JBool bool | JNum int | JStr string
  | JArr "json list" | JObj "(string \<times> json) list"

text \<open>
  Exceptions. \<^verbatim>\<open>except Exception\<close> and a bare \<^verbatim>\<open>except\<close> aside, only
  \<^verbatim>\<open>KeyError\<close> is caught by name. \<open>Exn\<close> is any other exception raised by a library
  call; all of those derive from \<^verbatim>\<open>Exception\<close>. An uncaught exception and
  \<^verbatim>\<open>SystemExit(1)\<close> both end the process with exit status 1.
\<close>

datatype exn = SystemExit nat | KeyError | TypeError | AttributeError
  | CalledProcessError int string | Exn string

text \<open>The outcome of \<^verbatim>\<open>subprocess.check_output\<close>.\<close>

datatype proc_result = ProcOk string | ProcFailed int string | ProcExn string

datatype level = INFO | WARNING | ERROR

text \<open>
  One constructor for each message the script logs at level \<^verbatim>\<open>INFO\<close> or above, with
  the arguments of its format string. \<^verbatim>\<open>DEBUG\<close> lines are left out (they are shown
  only under \<^verbatim>\<open>--verbose\<close>).
\<close>

datatype logmsg =
    ImportingUnderGroup string
  | GroupMissing string
  | RepoPathMissing string
  | DoneAll nat nat
  | SkippingBrokenLink string
  | SkippingRefsRemotes string
  | DestExists string
  | Copying string string
  | SettingOwnership string nat nat
  | MigratingHooks string string
  | ExceptionCopying string
  | Removing string
  | ProjectNotFound string string
  | NoCommits string
  | CreatedWithCommits nat
  | RunningImport "string list"
  | ImportFailed int string
  | UpdatingSettings string
  | NoChanges
  | SavingFailed string
  | SettingsUpdated string
  | RunningConfig "string list"
  | UnableToReadJSON "string list"
  | FoundReposPath json
  | DefaultReposPath json
  | FoundUser json
  | DefaultUser json
  | FoundGroup json
  | DefaultGroup json

text \<open>
  What the script does to the outside world, in order: a log line, or a call that can change
  the filesystem, start a process or reach the GitLab server.
\<close>

datatype event =
    Log level logmsg
  | Copytree string string
  | Chown string nat nat
  | Move string string
  | Rmtree string
  | CheckOutput "string list"
  | AllProjects
  | Commits string
  | Save string

text \<open>
  A \<^verbatim>\<open>gitlab.Project\<close> handle: the three names the script reads, and its other
  attributes by name (\<^verbatim>\<open>getattr\<close>, \<^verbatim>\<open>setattr\<close>).
\<close>

record project =
  name :: string
  namespace_name :: string
  path_with_namespace :: string
  attrs :: "string \<rightharpoonup> pyval"

text \<open>
  The state: the outside world \<open>sys\<close>, of a type the environment chooses, and the trace
  of events so far.
\<close>

record 'w state =
  sys :: 'w
  trace :: "event list"

text \<open>
  The collaborators, none of which is code of this repository. A filesystem call returns
  \<open>Some e\<close> when it raises; the world it returns is the one it leaves behind either way.
  \<open>copytree\<close> is given the \<^verbatim>\<open>ignore\<close> callback, which reads the world it is called
  in. \<open>walk\<close> lists \<^verbatim>\<open>(root, dirs, files)\<close> for the tree under a path. The GitLab
  calls \<open>all_projects\<close> and \<open>commits\<close> only read; \<open>save\<close> returns the handle as the
  server's answer leaves it.
\<close>

record 'w env =
  path_exists :: "'w \<Rightarrow> string \<Rightarrow> bool"
  copytree :: "('w \<Rightarrow> string \<Rightarrow> string list \<Rightarrow> string list) \<Rightarrow> string \<Rightarrow> string \<Rightarrow> 'w
                 \<Rightarrow> string option \<times> 'w"
  chown :: "string \<Rightarrow> nat \<Rightarrow> nat \<Rightarrow> 'w \<Rightarrow> string option \<times> 'w"
  walk :: "'w \<Rightarrow> string \<Rightarrow> (string \<times> string list \<times> string list) list"
  move :: "string \<Rightarrow> string \<Rightarrow> 'w \<Rightarrow> string option \<times> 'w"
  rmtree :: "string \<Rightarrow> 'w \<Rightarrow> string option \<times> 'w"
  check_output :: "string list \<Rightarrow> 'w \<Rightarrow> proc_result \<times> 'w"
  json_loads :: "string \<Rightarrow> json option"
  all_projects :: "'w \<Rightarrow> string + project list"
  commits :: "project \<Rightarrow> 'w \<Rightarrow> string + nat"
  save :: "project \<Rightarrow> 'w \<Rightarrow> (string + project) \<times> 'w"

definition emit :: "event \<Rightarrow> 'w state \<Rightarrow> 'w state" where
  "emit e s = s\<lparr>trace := trace s @ [e]\<rparr>"

definition logger :: "level \<Rightarrow> logmsg \<Rightarrow> 'w state \<Rightarrow> 'w state" where
  "logger l m s = emit (Log l m) s"

text \<open>An external call that changes the world: the event is recorded, the world replaced.\<close>

definition called :: "event \<Rightarrow> 'w \<Rightarrow> 'w state \<Rightarrow> 'w state" where
  "called e w s = \<lparr>sys = w, trace = trace s @ [e]\<rparr>"

subsection \<open>The module's two tables\<close>

definition BOOLEAN_SETTING_NAMES :: "string \<rightharpoonup> string" where
  "BOOLEAN_SETTING_NAMES =
     [''issues'' \<mapsto> ''issues_enabled'',
      ''merge_requests'' \<mapsto> ''merge_requests_enabled'',
      ''wiki'' \<mapsto> ''wiki_enabled'',
      ''snippets'' \<mapsto> ''snippets_enabled'']"

text \<open>
  \<^verbatim>\<open>VISIBILITY_LEVELS[value]\<close>: the keys are strings, so any other value, \<^verbatim>\<open>None\<close>
  included, is a missing key.
\<close>

definition VISIBILITY_LEVELS :: "pyval \<rightharpoonup> int" where
  "VISIBILITY_LEVELS v =
     (case v of
        PStr s \<Rightarrow> [''private'' \<mapsto> 0, ''internal'' \<mapsto> 10, ''public'' \<mapsto> 20] s
      | _ \<Rightarrow> None)"

subsection \<open>\<^verbatim>\<open>update_project_settings\<close> (lines 275 to 320)\<close>

text \<open>
  The loop over \<^verbatim>\<open>project_settings.items()\<close> (lines 289 to 310), on the items in the
  order the dictionary yields them. It returns the handle with the staged attributes and the
  flag \<^verbatim>\<open>changes\<close>. \<^verbatim>\<open>getattr\<close> of an attribute the handle lacks raises
  \<^verbatim>\<open>AttributeError\<close>; the lookup of the visibility level comes before any test of the
  value.
\<close>

fun stage_settings :: "(string \<times> pyval) list \<Rightarrow> project \<Rightarrow> bool \<Rightarrow> exn + (project \<times> bool)" where
  "stage_settings [] p changes = Inr (p, changes)"
| "stage_settings ((setting, val) # rest) p changes =
     (if setting = ''visibility'' then
        (case attrs p ''visibility_level'' of
           None \<Rightarrow> Inl AttributeError
         | Some current \<Rightarrow>
             (case VISIBILITY_LEVELS val of
                None \<Rightarrow> Inl KeyError
              | Some lvl \<Rightarrow>
                  if py_eq current (PInt lvl) then stage_settings rest p changes
                  else stage_settings rest
                         (p\<lparr>attrs := (attrs p)(''visibility_level'' \<mapsto> PInt lvl)\<rparr>) True))
      else
        (case BOOLEAN_SETTING_NAMES setting of
           None \<Rightarrow> stage_settings rest p changes
         | Some attr_name \<Rightarrow>
             if val = PNone then stage_settings rest p changes
             else
               (case attrs p attr_name of
                  None \<Rightarrow> Inl AttributeError
                | Some current \<Rightarrow>
                    if py_eq current val then stage_settings rest p changes
                    else stage_settings rest
                           (p\<lparr>attrs := (attrs p)(attr_name \<mapsto> val)\<rparr>) True)))"

text \<open>
  The whole method. An exception of the loop propagates; one of \<^verbatim>\<open>project.save()\<close> is
  logged and swallowed. The result is the handle as the method leaves it.
\<close>

definition update_project_settings ::
    "'w env \<Rightarrow> (string \<times> pyval) list \<Rightarrow> project \<Rightarrow> 'w state \<Rightarrow> (exn + project) \<times> 'w state" where
  "update_project_settings E project_settings proj s =
     (let s1 = logger INFO (UpdatingSettings (path_with_namespace proj)) s in
      case stage_settings project_settings proj False of
        Inl e \<Rightarrow> (Inl e, s1)
      | Inr (p, changes) \<Rightarrow>
          if \<not> changes then (Inr p, logger INFO NoChanges s1)
          else
            (case save E p (sys s1) of
               (Inl ex, w) \<Rightarrow>
                 (Inr p, logger ERROR (SavingFailed ex)
                           (called (Save (path_with_namespace p)) w s1))
             | (Inr p', w) \<Rightarrow>
                 (Inr p', logger INFO (SettingsUpdated (path_with_namespace p'))
                            (called (Save (path_with_namespace p)) w s1))))"

subsection \<open>\<^verbatim>\<open>_get_config\<close> (lines 322 to 362)\<close>

text \<open>
  \<^verbatim>\<open>conf[key]\<close> with a string key: a \<^verbatim>\<open>dict\<close> answers or raises
  \<^verbatim>\<open>KeyError\<close>; a list, a string, a number, a boolean or \<^verbatim>\<open>None\<close> raises
  \<^verbatim>\<open>TypeError\<close>.
\<close>

fun getitem :: "json \<Rightarrow> string \<Rightarrow> exn + json" where
  "getitem (JObj kvs) k = (case map_of kvs k of None \<Rightarrow> Inl KeyError | Some v \<Rightarrow> Inr v)"
| "getitem _ k = Inl TypeError"

text \<open>\<^verbatim>\<open>conf[a][b][c]\<close>, left to right.\<close>

definition getitem3 :: "json \<Rightarrow> string \<Rightarrow> string \<Rightarrow> string \<Rightarrow> exn + json" where
  "getitem3 conf a b c =
     (case getitem conf a of
        Inl e \<Rightarrow> Inl e
      | Inr x \<Rightarrow> (case getitem x b of Inl e \<Rightarrow> Inl e | Inr y \<Rightarrow> getitem y c))"

definition get_config ::
    "'w env \<Rightarrow> string \<Rightarrow> 'w state \<Rightarrow> (exn + (json \<times> json \<times> json)) \<times> 'w state" where
  "get_config E gitlab_ctl_path s =
     (let user = JStr ''git'';
          group = JStr ''git'';
          cmd = [gitlab_ctl_path, ''show-config''];
          s1 = logger INFO (RunningConfig cmd) s
      in case check_output E cmd (sys s1) of
           (ProcFailed code out, w) \<Rightarrow> (Inl (CalledProcessError code out), called (CheckOutput cmd) w s1)
         | (ProcExn e, w) \<Rightarrow> (Inl (Exn e), called (CheckOutput cmd) w s1)
         | (ProcOk res, w) \<Rightarrow>
             (let s2 = called (CheckOutput cmd) w s1 in
              case json_loads E res of
                None \<Rightarrow> (Inl (SystemExit 1), logger ERROR (UnableToReadJSON cmd) s2)
              | Some conf \<Rightarrow>
                  (case (case getitem3 conf ''gitlab'' ''gitlab-rails'' ''gitlab_shell_repos_path'' of
                           Inr p \<Rightarrow> Inr (p, logger INFO (FoundReposPath p) s2)
                         | Inl KeyError \<Rightarrow>
                             Inr (JStr ''/var/opt/gitlab/git-data/repositories'',
                                  logger WARNING
                                    (DefaultReposPath (JStr ''/var/opt/gitlab/git-data/repositories'')) s2)
                         | Inl e \<Rightarrow> Inl (e, s2)) of
                     Inl (e, s3) \<Rightarrow> (Inl e, s3)
                   | Inr (path, s3) \<Rightarrow>
                       (case (case getitem3 conf ''gitlab'' ''user'' ''username'' of
                                Inr u \<Rightarrow> Inr (u, logger INFO (FoundUser u) s3)
                              | Inl KeyError \<Rightarrow> Inr (user, logger WARNING (DefaultUser user) s3)
                              | Inl e \<Rightarrow> Inl (e, s3)) of
                          Inl (e, s4) \<Rightarrow> (Inl e, s4)
                        | Inr (user, s4) \<Rightarrow>
                            (case (case getitem3 conf ''gitlab'' ''user'' ''group'' of
                                     Inr g \<Rightarrow> Inr (g, logger INFO (FoundGroup g) s4)
                                   | Inl KeyError \<Rightarrow> Inr (group, logger WARNING (DefaultGroup group) s4)
                                   | Inl e \<Rightarrow> Inl (e, s4)) of
                               Inl (e, s5) \<Rightarrow> (Inl e, s5)
                             | Inr (group, s5) \<Rightarrow> (Inr (user, group, path), s5))))))"

subsection \<open>The importer object\<close>

text \<open>
  The attributes of \<^verbatim>\<open>self\<close> that the methods below read, as the constructor
  leaves them. \<open>refs_remotes_path\<close> is the one \<^verbatim>\<open>do_repo\<close> stores for the
  callback before every copy.
\<close>

record importer =
  remove_on_fail :: bool
  ignore_broken_links :: bool
  ignore_refs_remotes :: bool
  repos_dir :: string
  git_uid :: nat
  git_gid :: nat
  refs_remotes_path :: string

subsection \<open>\<^verbatim>\<open>ignore_files_callback\<close> (lines 176 to 187)\<close>

text \<open>
  The names to skip among \<open>items\<close> of directory \<open>dirname\<close>, in the order of
  \<open>items\<close>, and the warnings logged on the way.
\<close>

fun ignore_files_callback ::
    "'w env \<Rightarrow> importer \<Rightarrow> 'w \<Rightarrow> string \<Rightarrow> string list \<Rightarrow> string list \<times> event list" where
  "ignore_files_callback E self w dirname [] = ([], [])"
| "ignore_files_callback E self w dirname (item # items) =
     (let path = path_join dirname item;
          (skip, evs) = ignore_files_callback E self w dirname items
      in if ignore_broken_links self \<and> \<not> path_exists E w path
         then (item # skip, Log WARNING (SkippingBrokenLink path) # evs)
         else if ignore_refs_remotes self \<and> startswith path (refs_remotes_path self)
         then (item # skip, Log WARNING (SkippingRefsRemotes path) # evs)
         else (skip, evs))"

text \<open>
  The specification's reading of "under the \<^verbatim>\<open>refs/remotes\<close> subpath": the directory
  itself or a path below it.
\<close>

definition under_path :: "string \<Rightarrow> string \<Rightarrow> bool" where
  "under_path root p = (p = root \<or> prefix (root @ ''/'') p)"

subsection \<open>\<^verbatim>\<open>import_repo\<close> and \<^verbatim>\<open>get_gitlab_project\<close> (lines 251 to 273)\<close>

text \<open>
  \<^verbatim>\<open>CalledProcessError\<close> is caught and gives \<^verbatim>\<open>False\<close>; any other exception of
  \<^verbatim>\<open>check_output\<close> (the command cannot be started) propagates.
\<close>

definition import_repo :: "'w env \<Rightarrow> 'w state \<Rightarrow> (exn + bool) \<times> 'w state" where
  "import_repo E s =
     (let cmd = [''gitlab-rake'', ''-v'', ''gitlab:import:repos'', ''RAILS_ENV=production''];
          s1 = logger INFO (RunningImport cmd) s
      in case check_output E cmd (sys s1) of
           (ProcFailed code out, w) \<Rightarrow>
             (Inr False, logger ERROR (ImportFailed code out) (called (CheckOutput cmd) w s1))
         | (ProcExn e, w) \<Rightarrow> (Inl (Exn e), called (CheckOutput cmd) w s1)
         | (ProcOk res, w) \<Rightarrow> (Inr True, called (CheckOutput cmd) w s1))"

definition get_gitlab_project ::
    "'w env \<Rightarrow> string \<Rightarrow> string \<Rightarrow> 'w state \<Rightarrow> (exn + project option) \<times> 'w state" where
  "get_gitlab_project E namespace project_name s =
     (case all_projects E (sys s) of
        Inl e \<Rightarrow> (Inl (Exn e), emit AllProjects s)
      | Inr ps \<Rightarrow>
          (Inr (find (\<lambda>p. name p = project_name \<and> namespace_name p = namespace) ps),
           emit AllProjects s))"

subsection \<open>\<^verbatim>\<open>do_repo\<close> (lines 189 to 249)\<close>

text \<open>The two inner loops of the ownership walk: the first \<^verbatim>\<open>chown\<close> that raises ends it.\<close>

fun chown_each :: "'w env \<Rightarrow> nat \<Rightarrow> nat \<Rightarrow> string list \<Rightarrow> 'w state \<Rightarrow> string option \<times> 'w state" where
  "chown_each E uid gid [] s = (None, s)"
| "chown_each E uid gid (p # ps) s =
     (case chown E p uid gid (sys s) of
        (Some e, w) \<Rightarrow> (Some e, called (Chown p uid gid) w s)
      | (None, w) \<Rightarrow> chown_each E uid gid ps (called (Chown p uid gid) w s))"

text \<open>For each \<^verbatim>\<open>(root, dirs, files)\<close> of the walk: the directories, then the files.\<close>

definition walk_paths :: "(string \<times> string list \<times> string list) list \<Rightarrow> string list" where
  "walk_paths listing =
     concat (map (\<lambda>(root, dirs, files). map (path_join root) dirs @ map (path_join root) files)
                 listing)"

text \<open>
  Lines 205 to 217 of the \<^verbatim>\<open>try\<close> block: the copy with the ignore callback, then the
  ownership of the destination and of everything the walk lists under it. The walk is
  taken on the world as the first \<^verbatim>\<open>chown\<close> leaves it. The callback's warnings are
  logged inside \<^verbatim>\<open>copytree\<close> and are not part of the trace.
\<close>

definition copy_and_chown ::
    "'w env \<Rightarrow> importer \<Rightarrow> string \<Rightarrow> string \<Rightarrow> 'w state \<Rightarrow> string option \<times> 'w state" where
  "copy_and_chown E self repo_path dest_path s =
     (let self' = self\<lparr>refs_remotes_path := path_join (path_join repo_path ''refs'') ''remotes''\<rparr>
      in case copytree E (\<lambda>w dirname items. fst (ignore_files_callback E self' w dirname items))
                repo_path dest_path (sys s) of
           (Some e, w) \<Rightarrow> (Some e, called (Copytree repo_path dest_path) w s)
         | (None, w) \<Rightarrow>
             (let s1 = logger INFO (SettingOwnership dest_path (git_uid self) (git_gid self))
                         (called (Copytree repo_path dest_path) w s)
              in case chown E dest_path (git_uid self) (git_gid self) (sys s1) of
                   (Some e, w1) \<Rightarrow> (Some e, called (Chown dest_path (git_uid self) (git_gid self)) w1 s1)
                 | (None, w1) \<Rightarrow>
                     (let s2 = called (Chown dest_path (git_uid self) (git_gid self)) w1 s1
                      in chown_each E (git_uid self) (git_gid self)
                           (walk_paths (walk E (sys s2) dest_path)) s2)))"

text \<open>Lines 219 to 226: the hook migration, reached when \<^verbatim>\<open>migrate_hooks\<close> is set.\<close>

definition migrate_hooks_step :: "'w env \<Rightarrow> string \<Rightarrow> 'w state \<Rightarrow> string option \<times> 'w state" where
  "migrate_hooks_step E dest_path s =
     (let hook_dir = path_join dest_path ''hooks'';
          new_dir = path_join dest_path ''custom_hooks''
      in if path_exists E (sys s) hook_dir
         then (let s1 = logger INFO (MigratingHooks hook_dir new_dir) s
               in case move E hook_dir new_dir (sys s1) of
                    (r, w) \<Rightarrow> (r, called (Move hook_dir new_dir) w s1))
         else (None, s))"

text \<open>The body of the \<^verbatim>\<open>try\<close> (lines 203 to 226): \<open>Some e\<close> is the exception it raises.\<close>

definition try_copy ::
    "'w env \<Rightarrow> importer \<Rightarrow> bool \<Rightarrow> string \<Rightarrow> string \<Rightarrow> 'w state \<Rightarrow> string option \<times> 'w state" where
  "try_copy E self migrate_hooks repo_path dest_path s =
     (case copy_and_chown E self repo_path dest_path s of
        (Some e, s1) \<Rightarrow> (Some e, s1)
      | (None, s1) \<Rightarrow> if migrate_hooks then migrate_hooks_step E dest_path s1 else (None, s1))"

text \<open>
  The method returns \<^verbatim>\<open>False\<close>, \<^verbatim>\<open>True\<close> or, from the \<^verbatim>\<open>except\<close> branch,
  \<^verbatim>\<open>None\<close>: \<open>Some False\<close>, \<open>Some True\<close> and \<open>None\<close>. Exceptions of
  \<^verbatim>\<open>shutil.rmtree\<close> in the handler, of the GitLab calls and of
  \<^verbatim>\<open>update_project_settings\<close> are not caught.
\<close>

definition do_repo ::
    "'w env \<Rightarrow> importer \<Rightarrow> string \<Rightarrow> string \<Rightarrow> string \<Rightarrow> (string \<times> pyval) list \<Rightarrow> bool
       \<Rightarrow> 'w state \<Rightarrow> (exn + bool option) \<times> 'w state" where
  "do_repo E self create_path repo_path group_name project_settings migrate_hooks s =
     (let (repo_name, project_name) = repo_names repo_path;
          dest_path = path_join create_path repo_name
      in if path_exists E (sys s) dest_path
         then (Inr (Some False), logger ERROR (DestExists dest_path) s)
         else
           (case try_copy E self migrate_hooks repo_path dest_path
                   (logger INFO (Copying repo_path dest_path) s) of
              (Some ex, s2) \<Rightarrow>
                (let s3 = logger ERROR (ExceptionCopying ex) s2
                 in if remove_on_fail self \<and> path_exists E (sys s3) dest_path
                    then (let s4 = logger WARNING (Removing dest_path) s3
                          in case rmtree E dest_path (sys s4) of
                               (Some e, w) \<Rightarrow> (Inl (Exn e), called (Rmtree dest_path) w s4)
                             | (None, w) \<Rightarrow> (Inr None, called (Rmtree dest_path) w s4))
                    else (Inr None, s3))
            | (None, s2) \<Rightarrow>
                (case import_repo E s2 of
                   (Inl e, s3) \<Rightarrow> (Inl e, s3)
                 | (Inr False, s3) \<Rightarrow> (Inr (Some False), s3)
                 | (Inr True, s3) \<Rightarrow>
                     (case get_gitlab_project E group_name project_name s3 of
                        (Inl e, s4) \<Rightarrow> (Inl e, s4)
                      | (Inr None, s4) \<Rightarrow>
                          (Inr (Some False),
                           logger ERROR (ProjectNotFound group_name project_name) s4)
                      | (Inr (Some proj), s4) \<Rightarrow>
                          (case commits E proj (sys s4) of
                             Inl e \<Rightarrow> (Inl (Exn e), emit (Commits (path_with_namespace proj)) s4)
                           | Inr n \<Rightarrow>
                               (let s5 = emit (Commits (path_with_namespace proj)) s4;
                                    s6 = (if n < 1
                                          then logger WARNING (NoCommits (path_with_namespace proj)) s5
                                          else logger INFO (CreatedWithCommits n) s5)
                                in case update_project_settings E project_settings proj s6 of
                                     (Inl e, s7) \<Rightarrow> (Inl e, s7)
                                   | (Inr p, s7) \<Rightarrow> (Inr (Some True), s7)))))))"

subsection \<open>\<^verbatim>\<open>run\<close> (lines 146 to 174)\<close>

text \<open>
  The loop of lines 160 to 170 with its two counters. An exception that \<^verbatim>\<open>do_repo\<close>
  lets through ends the loop, and the run, at once.
\<close>

fun run_loop ::
    "'w env \<Rightarrow> importer \<Rightarrow> string \<Rightarrow> string \<Rightarrow> (string \<times> pyval) list \<Rightarrow> bool \<Rightarrow> string list
       \<Rightarrow> nat \<Rightarrow> nat \<Rightarrow> 'w state \<Rightarrow> (exn + nat \<times> nat) \<times> 'w state" where
  "run_loop E self create_path group_name project_settings migrate_hooks [] succeeded failed s =
     (Inr (succeeded, failed), s)"
| "run_loop E self create_path group_name project_settings migrate_hooks (repo # rest)
       succeeded failed s =
     (if \<not> path_exists E (sys s) repo
      then run_loop E self create_path group_name project_settings migrate_hooks rest
             succeeded failed (logger ERROR (RepoPathMissing repo) s)
      else
        (case do_repo E self create_path repo group_name project_settings migrate_hooks s of
           (Inl e, s') \<Rightarrow> (Inl e, s')
         | (Inr r, s') \<Rightarrow>
             if r = Some True
             then run_loop E self create_path group_name project_settings migrate_hooks rest
                    (succeeded + 1) failed s'
             else run_loop E self create_path group_name project_settings migrate_hooks rest
                    succeeded (failed + 1) s'))"

definition run ::
    "'w env \<Rightarrow> importer \<Rightarrow> string \<Rightarrow> string list \<Rightarrow> (string \<times> pyval) list \<Rightarrow> bool
       \<Rightarrow> 'w state \<Rightarrow> (exn + unit) \<times> 'w state" where
  "run E self group_name repo_paths project_settings migrate_hooks s =
     (let s1 = logger INFO (ImportingUnderGroup group_name) s;
          create_path = create_path_of (repos_dir self) group_name
      in if \<not> path_exists E (sys s1) create_path
         then (Inl (SystemExit 1), logger ERROR (GroupMissing create_path) s1)
         else
           (case run_loop E self create_path group_name project_settings migrate_hooks
                   repo_paths 0 0 s1 of
              (Inl e, s2) \<Rightarrow> (Inl e, s2)
            | (Inr (succeeded, failed), s2) \<Rightarrow>
                (let s3 = logger INFO (DoneAll succeeded failed) s2
                 in if failed > 0 then (Inl (SystemExit 1), s3) else (Inr (), s3))))"

text \<open>The exit status of the process: 0 on a normal return, 1 on an uncaught exception.\<close>

fun exit_status :: "exn + unit \<Rightarrow> nat" where
  "exit_status (Inr u) = 0"
| "exit_status (Inl (SystemExit n)) = n"
| "exit_status (Inl e) = 1"

text \<open>
  For the run loop's invariant: how many of the paths existed when the loop tested them, each
  test made in the world the earlier repositories left behind.
\<close>

fun existed_when_checked ::
    "'w env \<Rightarrow> importer \<Rightarrow> string \<Rightarrow> string \<Rightarrow> (string \<times> pyval) list \<Rightarrow> bool \<Rightarrow> string list
       \<Rightarrow> 'w state \<Rightarrow> nat" where
  "existed_when_checked E self create_path group_name project_settings migrate_hooks [] s = 0"
| "existed_when_checked E self create_path group_name project_settings migrate_hooks (repo # rest) s =
     (if \<not> path_exists E (sys s) repo
      then existed_when_checked E self create_path group_name project_settings migrate_hooks rest
             (logger ERROR (RepoPathMissing repo) s)
      else Suc (existed_when_checked E self create_path group_name project_settings migrate_hooks rest
                  (snd (do_repo E self create_path repo group_name project_settings migrate_hooks s))))"

subsection \<open>Notions of the specification\<close>

text \<open>
  For the configuration: \<open>lookup_path conf ks\<close> is the value under the nested keys
  \<open>ks\<close> if every key is present, and \<open>nests_objects conf ks\<close> says that every value
  met on the way down, as far as the keys are present, is an object.
\<close>

fun lookup_path :: "json \<Rightarrow> string list \<Rightarrow> json option" where
  "lookup_path j [] = Some j"
| "lookup_path (JObj kvs) (k # ks) =
     (case map_of kvs k of None \<Rightarrow> None | Some v \<Rightarrow> lookup_path v ks)"
| "lookup_path j (k # ks) = None"

fun nests_objects :: "json \<Rightarrow> string list \<Rightarrow> bool" where
  "nests_objects j [] = True"
| "nests_objects (JObj kvs) (k # ks) =
     (case map_of kvs k of None \<Rightarrow> True | Some v \<Rightarrow> nests_objects v ks)"
| "nests_objects j (k # ks) = False"

definition value_or :: "json \<Rightarrow> string list \<Rightarrow> json \<Rightarrow> json" where
  "value_or conf ks dflt = (case lookup_path conf ks of None \<Rightarrow> dflt | Some v \<Rightarrow> v)"

text \<open>
  For the settings: the attribute a setting writes, and \<open>settled k v p\<close>, which says that
  the loop has nothing to do for the item \<open>(k, v)\<close> on the handle \<open>p\<close>.
\<close>

definition attr_of :: "string \<Rightarrow> string option" where
  "attr_of k = (if k = ''visibility'' then Some ''visibility_level'' else BOOLEAN_SETTING_NAMES k)"

definition settled :: "string \<Rightarrow> pyval \<Rightarrow> project \<Rightarrow> bool" where
  "settled k v p =
     (if k = ''visibility'' then
        (case attrs p ''visibility_level'' of
           None \<Rightarrow> False
         | Some current \<Rightarrow>
             (case VISIBILITY_LEVELS v of None \<Rightarrow> False | Some lvl \<Rightarrow> py_eq current (PInt lvl)))
      else
        (case BOOLEAN_SETTING_NAMES k of
           None \<Rightarrow> True
         | Some attr_name \<Rightarrow>
             v = PNone
             \<or> (case attrs p attr_name of None \<Rightarrow> False | Some current \<Rightarrow> py_eq current v)))"

subsection \<open>A small concrete world\<close>

text \<open>
  For evaluating the model: the world is the list of paths that exist; every source
  repository holds \<^verbatim>\<open>hooks\<close> and \<^verbatim>\<open>refs\<close>; the server knows one project,
  \<^verbatim>\<open>eng/foo\<close>, private and with every feature enabled; the configuration command prints
  an empty object; no call fails.
\<close>

definition sample_project :: project where
  "sample_project =
     \<lparr>name = ''foo'', namespace_name = ''eng'', path_with_namespace = ''eng/foo'',
      attrs = [''visibility_level'' \<mapsto> PInt 0,
               ''issues_enabled'' \<mapsto> PBool True,
               ''merge_requests_enabled'' \<mapsto> PBool True,
               ''wiki_enabled'' \<mapsto> PBool True,
               ''snippets_enabled'' \<mapsto> PBool True]\<rparr>"

definition sample_env :: "string list env" where
  "sample_env =
     \<lparr>path_exists = (\<lambda>w p. p \<in> set w),
      copytree = (\<lambda>ignore src dst w.
         (None, w @ dst # map (path_join dst)
                  (filter (\<lambda>i. i \<notin> set (ignore w src [''hooks'', ''refs''])) [''hooks'', ''refs'']))),
      chown = (\<lambda>p uid gid w. (None, w)),
      walk = (\<lambda>w p. [(p, filter (\<lambda>d. path_join p d \<in> set w) [''hooks'', ''refs''], [])]),
      move = (\<lambda>a b w. (None, b # removeAll a w)),
      rmtree = (\<lambda>p w. (None, removeAll p w)),
      check_output = (\<lambda>cmd w.
         (ProcOk (if cmd = [''/bin/gitlab-ctl'', ''show-config''] then ''{}'' else []), w)),
      json_loads = (\<lambda>s. if s = ''{}'' then Some (JObj []) else if s = ''[]'' then Some (JArr [])
                         else None),
      all_projects = (\<lambda>w. Inr [sample_project]),
      commits = (\<lambda>p w. Inr 1),
      save = (\<lambda>p w. (Inr p, w))\<rparr>"

text \<open>The same world with a configuration command that prints an empty array.\<close>

definition array_config_env :: "string list env" where
  "array_config_env = sample_env\<lparr>check_output := (\<lambda>cmd w. (ProcOk ''[]'', w))\<rparr>"

text \<open>The same world with a server that refuses every \<^verbatim>\<open>save\<close>.\<close>

definition failing_save_env :: "string list env" where
  "failing_save_env = sample_env\<lparr>save := (\<lambda>p w. (Inl ''GitlabUpdateError'', w))\<rparr>"

definition sample_self :: importer where
  "sample_self =
     \<lparr>remove_on_fail = False, ignore_broken_links = False, ignore_refs_remotes = True,
      repos_dir = ''/srv/git'', git_uid = 998, git_gid = 998, refs_remotes_path = []\<rparr>"

text \<open>The group directory and one source repository exist.\<close>

definition sample_state :: "string list state" where
  "sample_state = \<lparr>sys = [''/srv/git/eng'', ''/data/repos/foo.git''], trace = []\<rparr>"

text \<open>The same, with the destination of that repository already there.\<close>

definition occupied_state :: "string list state" where
  "occupied_state =
     \<lparr>sys = [''/srv/git/eng'', ''/srv/git/eng/foo.git'', ''/data/repos/foo.git''], trace = []\<rparr>"

text \<open>
  The settings \<^verbatim>\<open>parse_args\<close> builds when no settings option is given (lines 430 to
  438), and those of the specification's example.
\<close>

definition default_settings :: "(string \<times> pyval) list" where
  "default_settings =
     [(''visibility'', PNone), (''issues'', PNone), (''merge_requests'', PNone),
      (''wiki'', PNone), (''snippets'', PNone)]"

definition example_settings :: "(string \<times> pyval) list" where
  "example_settings = [(''visibility'', PStr ''public''), (''issues'', PBool False)]"

section \<open>Properties\<close>

text \<open>Unfolding rules for evaluating the model in the concrete world.\<close>

lemmas sample_defs = sample_env_def sample_self_def sample_state_def sample_project_def
  default_settings_def occupied_state_def array_config_env_def failing_save_env_def
  example_settings_def

lemmas prim_defs = path_join_def startswith_def endswith_def basename_def re_sub_dot_git_def
  repo_names_def dest_path_of_def project_name_of_def create_path_of_def

lemmas step_defs = logger_def emit_def called_def update_project_settings_def import_repo_def
  get_gitlab_project_def copy_and_chown_def migrate_hooks_step_def try_copy_def do_repo_def run_def
  walk_paths_def VISIBILITY_LEVELS_def BOOLEAN_SETTING_NAMES_def

subsection \<open>Strings and paths\<close>

lemma endswith_suffix: "endswith s p \<longleftrightarrow> suffix p s"
proof
  assume "endswith s p"
  then have "s = take (length s - length p) s @ p"
    by (metis endswith_def append_take_drop_id)
  then show "suffix p s" by (metis suffixI)
next
  assume "suffix p s"
  then obtain zs where "s = zs @ p" by (auto simp: suffix_def)
  then show "endswith s p" by (simp add: endswith_def)
qed

lemma startswith_prefix: "startswith s p \<longleftrightarrow> prefix p s"
proof
  assume "startswith s p"
  then have "s = p @ drop (length p) s"
    by (metis startswith_def append_take_drop_id)
  then show "prefix p s" by (metis prefixI)
next
  assume "prefix p s"
  then obtain zs where "s = p @ zs" by (auto simp: prefix_def)
  then show "startswith s p" by (simp add: startswith_def)
qed

lemma butlast4: "butlast (butlast (butlast (butlast b))) = take (length b - 4) b"
  by (simp add: butlast_conv_take eval_nat_numeral)

lemma repo_names_stem:
  "repo_names repo_path =
     (spec_stem (basename repo_path) @ ''.git'', spec_stem (basename repo_path))"
proof (cases "endswith (basename repo_path) ''.git''")
  case True
  then have "drop (length (basename repo_path) - 4) (basename repo_path) = ''.git''"
    by (simp add: endswith_def eval_nat_numeral)
  then have "take (length (basename repo_path) - 4) (basename repo_path) @ ''.git''
               = basename repo_path"
    by (metis append_take_drop_id)
  with True show ?thesis
    by (simp add: repo_names_def Let_def spec_stem_def re_sub_dot_git_def butlast4
             flip: endswith_suffix)
next
  case False
  then show ?thesis
    by (simp add: repo_names_def Let_def spec_stem_def flip: endswith_suffix)
qed

lemma startswith_slash: "startswith s ''/'' \<longleftrightarrow> (s \<noteq> [] \<and> hd s = CHR ''/'')"
  by (cases s) (simp_all add: startswith_def)

lemma endswith_slash: "endswith s ''/'' \<longleftrightarrow> (s \<noteq> [] \<and> last s = CHR ''/'')"
proof (cases s rule: rev_cases)
  case Nil
  then show ?thesis by (simp add: endswith_def)
next
  case (snoc ys y)
  then show ?thesis by (simp add: endswith_def)
qed

lemma basename_no_slash: "CHR ''/'' \<notin> set (basename p)"
  by (auto simp: basename_def dest: set_takeWhileD)

lemma spec_stem_subset: "set (spec_stem b) \<subseteq> set b"
  by (auto simp: spec_stem_def dest: in_set_butlastD)

text \<open>The repository's directory name is never absolute, so the join keeps the group path.\<close>

lemma repo_name_not_absolute: "\<not> startswith (spec_stem (basename p) @ ''.git'') ''/''"
proof (cases "spec_stem (basename p)")
  case Nil
  then show ?thesis by (simp add: startswith_slash)
next
  case (Cons c cs)
  then have "c \<in> set (basename p)" using spec_stem_subset[of "basename p"] by auto
  with basename_no_slash[of p] have "c \<noteq> CHR ''/''" by auto
  with Cons show ?thesis by (simp add: startswith_slash)
qed

subsection \<open>Destination and project name\<close>


text \<open>The specification's example, and the same repository named without the suffix.\<close>

lemma dest_and_project_name_example:
  "dest_path_of (create_path_of ''/var/opt/gitlab/git-data/repositories'' ''eng'')
       ''/data/repos/foo.git''
     = ''/var/opt/gitlab/git-data/repositories/eng/foo.git''
   \<and> project_name_of ''/data/repos/foo.git'' = ''foo''
   \<and> dest_path_of (create_path_of ''/var/opt/gitlab/git-data/repositories'' ''eng'')
       ''/data/repos/foo''
     = ''/var/opt/gitlab/git-data/repositories/eng/foo.git''
   \<and> project_name_of ''/data/repos/foo'' = ''foo''"
  by code_simp

text \<open>
  Written out as a string: when the repositories directory and the group name are not empty,
  neither ends with a slash and the group name does not start with one, the joins put
  exactly one slash between the parts.
\<close>

lemma dest_path_literal:
  assumes "rdir \<noteq> []" and "\<not> endswith rdir ''/''"
    and "g \<noteq> []" and "\<not> startswith g ''/''" and "\<not> endswith g ''/''"
  shows "dest_path_of (create_path_of rdir g) repo_path =
           rdir @ ''/'' @ g @ ''/'' @ spec_stem (basename repo_path) @ ''.git''"
proof -
  from assms have 1: "path_join rdir g = rdir @ ''/'' @ g"
    by (simp add: path_join_def)
  from assms(3,5) have 2: "\<not> endswith (rdir @ ''/'' @ g) ''/''"
    by (simp add: endswith_slash)
  have "dest_path_of (create_path_of rdir g) repo_path =
          path_join (rdir @ ''/'' @ g) (spec_stem (basename repo_path) @ ''.git'')"
    by (simp only: dest_path_of_def create_path_of_def repo_names_stem fst_conv 1)
  also have "\<dots> = (rdir @ ''/'' @ g) @ ''/'' @ spec_stem (basename repo_path) @ ''.git''"
    unfolding path_join_def[of "rdir @ ''/'' @ g"]
    using repo_name_not_absolute[of repo_path] 2 by simp
  finally show ?thesis by simp
qed

subsection \<open>The ignore callback\<close>

text \<open>
  With the broken-link flag off, the callback skips exactly the items whose joined path has
  the stored \<^verbatim>\<open>refs/remotes\<close> path as a string prefix.
\<close>

lemma ignore_files_callback_refs:
  "\<not> ignore_broken_links self \<Longrightarrow>
   fst (ignore_files_callback E self w dirname items) =
     filter (\<lambda>item. ignore_refs_remotes self
                    \<and> prefix (refs_remotes_path self) (path_join dirname item)) items"
  by (induction items) (simp_all add: Let_def split_beta startswith_prefix)

lemma under_path_prefix: "under_path root p \<Longrightarrow> prefix root p"
  by (auto simp: under_path_def prefix_def)

text \<open>So every entry under \<^verbatim>\<open>refs/remotes\<close> is skipped when the flag is set.\<close>

lemma refs_remotes_entries_skipped:
  assumes "\<not> ignore_broken_links self" and "ignore_refs_remotes self"
    and "item \<in> set items"
    and "under_path (refs_remotes_path self) (path_join dirname item)"
  shows "item \<in> set (fst (ignore_files_callback E self w dirname items))"
  using assms by (simp add: ignore_files_callback_refs under_path_prefix)

text \<open>
  C6. With the \<^verbatim>\<open>refs/remotes\<close> flag set, the callback is to exclude exactly the
  entries under the source repository's \<^verbatim>\<open>refs/remotes\<close>. The code tests a string
  prefix, so for the directory \<^verbatim>\<open>/data/repos/foo.git/refs\<close> with the entries
  \<^verbatim>\<open>heads\<close>, \<^verbatim>\<open>remotes\<close> and \<^verbatim>\<open>remotes-old\<close> it skips the sibling
  \<^verbatim>\<open>remotes-old\<close> too, which is not under \<^verbatim>\<open>refs/remotes\<close>: only
  \<^verbatim>\<open>remotes\<close> is.
\<close>

theorem refs_remotes_sibling_skipped:
  "fst (ignore_files_callback E
          (sample_self\<lparr>refs_remotes_path := ''/data/repos/foo.git/refs/remotes''\<rparr>) w
          ''/data/repos/foo.git/refs'' [''heads'', ''remotes'', ''remotes-old''])
     = [''remotes'', ''remotes-old'']
   \<and> filter (\<lambda>item. under_path ''/data/repos/foo.git/refs/remotes''
                      (path_join ''/data/repos/foo.git/refs'' item))
        [''heads'', ''remotes'', ''remotes-old'']
     = [''remotes'']"
  by (simp add: sample_self_def path_join_def startswith_def endswith_def under_path_def Let_def)

subsection \<open>Settings reconciliation\<close>

text \<open>
  C2. A setting whose target value is \<^verbatim>\<open>None\<close> is to cause no fetch, no staging and no
  error. For the four feature flags the code tests the value first; for \<^verbatim>\<open>visibility\<close>
  it does not, and \<^verbatim>\<open>VISIBILITY_LEVELS[None]\<close> raises \<^verbatim>\<open>KeyError\<close>: on the
  one-item mapping, on the mapping \<^verbatim>\<open>parse_args\<close> builds by default, and, uncaught,
  out of a whole run.
\<close>

theorem null_visibility_raises:
  "fst (update_project_settings E [(''visibility'', PNone)] sample_project s) = Inl KeyError
   \<and> fst (update_project_settings E default_settings sample_project s) = Inl KeyError
   \<and> fst (run sample_env sample_self ''eng'' [''/data/repos/foo.git''] default_settings True
            sample_state) = Inl KeyError"
  by (simp add: sample_defs prim_defs step_defs Let_def)

text \<open>A null feature flag, in contrast, is passed over.\<close>

lemma null_flag_skipped:
  "BOOLEAN_SETTING_NAMES k = Some a \<Longrightarrow> k \<noteq> ''visibility''
     \<Longrightarrow> stage_settings ((k, PNone) # rest) p c = stage_settings rest p c"
  by simp

lemma py_eq_refl: "py_eq v v"
  by (cases v) simp_all

lemma attr_of_inj: "attr_of k = Some a \<Longrightarrow> attr_of k' = Some a \<Longrightarrow> k = k'"
  by (auto simp: attr_of_def BOOLEAN_SETTING_NAMES_def split: if_splits)

lemma settled_skip: "settled k v p \<Longrightarrow> stage_settings ((k, v) # rest) p c = stage_settings rest p c"
  by (auto simp: settled_def split: option.splits if_splits)

lemma all_settled_noop:
  "\<forall>(k, v) \<in> set ps. settled k v q \<Longrightarrow> stage_settings ps q c = Inr (q, c)"
proof (induction ps)
  case Nil
  show ?case by simp
next
  case (Cons kv ps)
  obtain k v where kv: "kv = (k, v)" by (cases kv)
  from Cons.prems kv have "settled k v q" by simp
  then have "stage_settings (kv # ps) q c = stage_settings ps q c"
    unfolding kv by (rule settled_skip)
  also from Cons have "\<dots> = Inr (q, c)" by simp
  finally show ?case .
qed

text \<open>
  One turn of the loop that does not raise leaves the item settled and touches no attribute
  but the item's own.
\<close>

lemma stage_step:
  assumes "stage_settings ((k, v) # rest) p c = Inr (q, c')"
  shows "\<exists>p1 c1. stage_settings rest p1 c1 = Inr (q, c') \<and> settled k v p1
           \<and> (\<forall>a. attr_of k \<noteq> Some a \<longrightarrow> attrs p1 a = attrs p a)"
proof (cases "k = ''visibility''")
  case True
  from assms True obtain current lvl where
    cur: "attrs p ''visibility_level'' = Some current" and lvl: "VISIBILITY_LEVELS v = Some lvl"
    by (auto split: option.splits)
  show ?thesis
  proof (cases "py_eq current (PInt lvl)")
    case eq: True
    with assms True cur lvl have "stage_settings rest p c = Inr (q, c')" by simp
    moreover from True cur lvl eq have "settled k v p" by (simp add: settled_def)
    ultimately show ?thesis by blast
  next
    case ne: False
    let ?p1 = "p\<lparr>attrs := (attrs p)(''visibility_level'' \<mapsto> PInt lvl)\<rparr>"
    from assms True cur lvl ne have "stage_settings rest ?p1 True = Inr (q, c')" by simp
    moreover from True lvl have "settled k v ?p1" by (simp add: settled_def)
    moreover from True have "\<forall>a. attr_of k \<noteq> Some a \<longrightarrow> attrs ?p1 a = attrs p a"
      by (simp add: attr_of_def)
    ultimately show ?thesis by blast
  qed
next
  case False
  show ?thesis
  proof (cases "BOOLEAN_SETTING_NAMES k")
    case None
    with assms False have "stage_settings rest p c = Inr (q, c')" by simp
    moreover from False None have "settled k v p" by (simp add: settled_def)
    ultimately show ?thesis by blast
  next
    case (Some attr_name)
    show ?thesis
    proof (cases "v = PNone")
      case True
      with assms False Some have "stage_settings rest p c = Inr (q, c')" by simp
      moreover from False Some True have "settled k v p" by (simp add: settled_def)
      ultimately show ?thesis by blast
    next
      case notnone: False
      from assms False Some notnone obtain current where cur: "attrs p attr_name = Some current"
        by (auto split: option.splits)
      show ?thesis
      proof (cases "py_eq current v")
        case True
        with assms False Some notnone cur have "stage_settings rest p c = Inr (q, c')" by simp
        moreover from False Some cur True have "settled k v p" by (simp add: settled_def)
        ultimately show ?thesis by blast
      next
        case ne: False
        let ?p1 = "p\<lparr>attrs := (attrs p)(attr_name \<mapsto> v)\<rparr>"
        from assms False Some notnone cur ne have "stage_settings rest ?p1 True = Inr (q, c')"
          by simp
        moreover from False Some have "settled k v ?p1" by (simp add: settled_def py_eq_refl)
        moreover from False Some have "\<forall>a. attr_of k \<noteq> Some a \<longrightarrow> attrs ?p1 a = attrs p a"
          by (simp add: attr_of_def)
        ultimately show ?thesis by blast
      qed
    qed
  qed
qed

lemma stage_preserves_other:
  "stage_settings ps p c = Inr (q, c') \<Longrightarrow> \<forall>k \<in> set (map fst ps). attr_of k \<noteq> Some a
     \<Longrightarrow> attrs q a = attrs p a"
proof (induction ps arbitrary: p c)
  case Nil
  then show ?case by simp
next
  case (Cons kv ps)
  obtain k v where kv: "kv = (k, v)" by (cases kv)
  from Cons.prems(1) obtain p1 c1 where
    1: "stage_settings ps p1 c1 = Inr (q, c')" and
    2: "\<forall>a. attr_of k \<noteq> Some a \<longrightarrow> attrs p1 a = attrs p a"
    unfolding kv using stage_step by blast
  from Cons.prems(2) kv have "attr_of k \<noteq> Some a" by simp
  with 2 have "attrs p1 a = attrs p a" by simp
  moreover from Cons.IH[OF 1] Cons.prems(2) have "attrs q a = attrs p1 a" by simp
  ultimately show ?case by simp
qed

lemma settled_depends:
  assumes "settled k v p" and "\<forall>a. attr_of k = Some a \<longrightarrow> attrs q a = attrs p a"
  shows "settled k v q"
  using assms by (auto simp: settled_def attr_of_def split: option.splits if_splits)

text \<open>
  After a loop over a dictionary (no key twice) that did not raise, every item is settled:
  a later item writes another attribute.
\<close>

lemma stage_settles:
  "distinct (map fst ps) \<Longrightarrow> stage_settings ps p c = Inr (q, c')
     \<Longrightarrow> \<forall>(k, v) \<in> set ps. settled k v q"
proof (induction ps arbitrary: p c)
  case Nil
  then show ?case by simp
next
  case (Cons kv ps)
  obtain k v where kv: "kv = (k, v)" by (cases kv)
  from Cons.prems(2) obtain p1 c1 where
    1: "stage_settings ps p1 c1 = Inr (q, c')" and 2: "settled k v p1"
    unfolding kv using stage_step by blast
  from Cons.prems(1) kv have dist: "distinct (map fst ps)" and notin: "k \<notin> set (map fst ps)"
    by simp_all
  have "settled k v q"
  proof (rule settled_depends[OF 2], intro allI impI)
    fix a assume a: "attr_of k = Some a"
    have "\<forall>k' \<in> set (map fst ps). attr_of k' \<noteq> Some a"
      using attr_of_inj[OF a] notin by blast
    from stage_preserves_other[OF 1 this] show "attrs q a = attrs p1 a" .
  qed
  moreover from Cons.IH[OF dist 1] have "\<forall>(k, v) \<in> set ps. settled k v q" .
  ultimately show ?case by (simp add: kv)
qed

lemma stage_idempotent:
  assumes "distinct (map fst ps)" and "stage_settings ps p c = Inr (q, c')"
    and "attrs q' = attrs q"
  shows "stage_settings ps q' False = Inr (q', False)"
proof -
  from stage_settles[OF assms(1,2)] have "\<forall>(k, v) \<in> set ps. settled k v q" .
  then have "\<forall>(k, v) \<in> set ps. settled k v q'"
    using settled_depends assms(3) by (metis (mono_tags, lifting) case_prodD case_prodI2)
  then show ?thesis by (rule all_settled_noop)
qed

text \<open>
  C4. Settings reconciliation is idempotent. The settings are a dictionary, so no key occurs
  twice. If a first invocation returns without raising, and a successful
  \<^verbatim>\<open>project.save()\<close> leaves on the handle the attribute values that were sent (the
  server persisted them), then a second invocation with the same target values on the
  resulting handle stages nothing and makes no remote write: it returns the handle
  unchanged, leaves the world alone, and only logs that there are no changes. This holds
  whatever the second invocation's server would do, since it is never called.
\<close>

theorem settings_idempotent:
  assumes "distinct (map fst ps)"
    and "update_project_settings E ps proj s = (Inr proj', s')"
    and "\<forall>q w q' w'. save E q w = (Inr q', w') \<longrightarrow> attrs q' = attrs q"
  shows "update_project_settings E2 ps proj' s2 =
           (Inr proj',
            \<lparr>sys = sys s2,
             trace = trace s2 @ [Log INFO (UpdatingSettings (path_with_namespace proj')),
                                 Log INFO NoChanges]\<rparr>)"
proof -
  from assms(2) obtain q c where st: "stage_settings ps proj False = Inr (q, c)"
    by (auto simp: update_project_settings_def Let_def split: sum.splits)
  have "attrs proj' = attrs q"
  proof (cases c)
    case False
    with assms(2) st show ?thesis by (simp add: update_project_settings_def Let_def)
  next
    case True
    with assms(2,3) st show ?thesis
      by (auto simp: update_project_settings_def Let_def logger_def emit_def
               split: prod.splits sum.splits)
  qed
  from stage_idempotent[OF assms(1) st this]
  show ?thesis
    by (simp add: update_project_settings_def Let_def logger_def emit_def)
qed

text \<open>
  On the specification's example (\<^verbatim>\<open>visibility: 'public', issues: False\<close> against a
  private project with issues enabled) the first invocation saves once, and the second, even
  against a server that would refuse, changes nothing.
\<close>

theorem settings_idempotent_witness:
  "distinct (map fst example_settings)
   \<and> (\<exists>p s'. update_project_settings sample_env example_settings sample_project sample_state
                = (Inr p, s')
             \<and> Save ''eng/foo'' \<in> set (trace s')
             \<and> update_project_settings failing_save_env example_settings p s'
                = (Inr p, \<lparr>sys = sys s',
                           trace = trace s' @ [Log INFO (UpdatingSettings (path_with_namespace p)),
                                               Log INFO NoChanges]\<rparr>))"
proof -
  have d: "distinct (map fst example_settings)" by (simp add: example_settings_def)
  have f: "\<forall>q w q' w'. save sample_env q w = (Inr q', w') \<longrightarrow> attrs q' = attrs q"
    by (simp add: sample_env_def)
  obtain p s' where
    u: "update_project_settings sample_env example_settings sample_project sample_state = (Inr p, s')"
    and sv: "Save ''eng/foo'' \<in> set (trace s')"
    by (simp add: sample_defs step_defs Let_def)
  from settings_idempotent[OF d u f, of failing_save_env s'] d u sv show ?thesis by blast
qed

lemma settings_example:
  "attrs (projr (fst (update_project_settings sample_env example_settings sample_project
                        sample_state))) ''visibility_level'' = Some (PInt 20)
   \<and> attrs (projr (fst (update_project_settings sample_env example_settings sample_project
                          sample_state))) ''issues_enabled'' = Some (PBool False)
   \<and> trace (snd (update_project_settings sample_env example_settings sample_project sample_state))
       = [Log INFO (UpdatingSettings ''eng/foo''), Save ''eng/foo'',
          Log INFO (SettingsUpdated ''eng/foo'')]"
  by (simp add: sample_defs step_defs Let_def)

subsection \<open>Configuration discovery\<close>

lemma getitem3_cases:
  "getitem3 conf a b c =
     (if \<not> nests_objects conf [a, b, c] then Inl TypeError
      else case lookup_path conf [a, b, c] of None \<Rightarrow> Inl KeyError | Some v \<Rightarrow> Inr v)"
proof (cases conf)
  case (JObj kvs)
  show ?thesis
  proof (cases "map_of kvs a")
    case None
    with JObj show ?thesis by (simp add: getitem3_def)
  next
    case (Some x)
    show ?thesis
    proof (cases x)
      case (JObj kvs2)
      show ?thesis
      proof (cases "map_of kvs2 b")
        case None
        with \<open>conf = JObj kvs\<close> Some \<open>x = JObj kvs2\<close> show ?thesis by (simp add: getitem3_def)
      next
        case (Some y)
        with \<open>conf = JObj kvs\<close> \<open>map_of kvs a = Some x\<close> \<open>x = JObj kvs2\<close> show ?thesis
          by (cases y) (simp_all add: getitem3_def split: option.splits)
      qed
    qed (use \<open>conf = JObj kvs\<close> Some in \<open>simp_all add: getitem3_def\<close>)
  qed
qed (simp_all add: getitem3_def)

text \<open>A configuration command that fails is not caught either.\<close>

lemma get_config_command_failure:
  "check_output E [ctl, ''show-config''] (sys s) = (ProcFailed code out, w)
     \<Longrightarrow> fst (get_config E ctl s) = Inl (CalledProcessError code out)"
  by (simp add: get_config_def Let_def logger_def emit_def)

text \<open>
  C9, as the code has it. Given that the configuration command ran and printed \<open>res\<close>:
  config discovery ends the process with \<^verbatim>\<open>SystemExit(1)\<close> when \<open>res\<close> is not valid
  JSON; it also fails, with an uncaught \<^verbatim>\<open>TypeError\<close>, when \<open>res\<close> is valid JSON in
  which a value on the way to one of the three keys is not an object; in every other case it
  returns, for the user, the group and the storage path, the configured value where the key
  is present and the documented default where it is absent.
\<close>

theorem get_config_outcome:
  assumes "check_output E [ctl, ''show-config''] (sys s) = (ProcOk res, w)"
  shows "fst (get_config E ctl s) =
           (case json_loads E res of
              None \<Rightarrow> Inl (SystemExit 1)
            | Some conf \<Rightarrow>
                if nests_objects conf [''gitlab'', ''gitlab-rails'', ''gitlab_shell_repos_path'']
                   \<and> nests_objects conf [''gitlab'', ''user'', ''username'']
                   \<and> nests_objects conf [''gitlab'', ''user'', ''group'']
                then Inr (value_or conf [''gitlab'', ''user'', ''username''] (JStr ''git''),
                          value_or conf [''gitlab'', ''user'', ''group''] (JStr ''git''),
                          value_or conf [''gitlab'', ''gitlab-rails'', ''gitlab_shell_repos_path'']
                            (JStr ''/var/opt/gitlab/git-data/repositories''))
                else Inl TypeError)"
  using assms
  by (simp add: get_config_def Let_def logger_def emit_def getitem3_cases value_or_def
           split: option.splits)

text \<open>An empty object: all three defaults.\<close>

theorem get_config_outcome_witness:
  "check_output sample_env [''/bin/gitlab-ctl'', ''show-config''] (sys sample_state)
     = (ProcOk ''{}'', sys sample_state)
   \<and> fst (get_config sample_env ''/bin/gitlab-ctl'' sample_state)
     = Inr (JStr ''git'', JStr ''git'', JStr ''/var/opt/gitlab/git-data/repositories'')"
proof -
  have h: "check_output sample_env [''/bin/gitlab-ctl'', ''show-config''] (sys sample_state)
             = (ProcOk ''{}'', sys sample_state)"
    by (simp add: sample_defs)
  have l: "json_loads sample_env ''{}'' = Some (JObj [])" by (simp add: sample_defs)
  from get_config_outcome[OF h] h show ?thesis
    by (simp add: l value_or_def)
qed

text \<open>
  C9, as stated, fails: the output \<^verbatim>\<open>[]\<close> is valid JSON, and config discovery is fatal
  on it all the same.
\<close>

theorem valid_json_array_is_fatal:
  "check_output array_config_env [''/bin/gitlab-ctl'', ''show-config''] (sys sample_state)
     = (ProcOk ''[]'', sys sample_state)
   \<and> json_loads array_config_env ''[]'' = Some (JArr [])
   \<and> fst (get_config array_config_env ''/bin/gitlab-ctl'' sample_state) = Inl TypeError"
  by (simp add: sample_defs get_config_def getitem3_def Let_def logger_def emit_def called_def)

subsection \<open>One repository\<close>

lemma state_trace_update: "(s :: 'w state)\<lparr>trace := t\<rparr> = \<lparr>sys = sys s, trace = t\<rparr>"
  by (cases s) simp

text \<open>
  C7. For every repository whose destination path already exists before the copy,
  \<^verbatim>\<open>do_repo\<close> returns \<^verbatim>\<open>False\<close> and attempts no copy: the world is unchanged, and
  the only event is the error line, so neither the import command nor any remote call is
  made for that repository.
\<close>

theorem existing_destination_fails:
  assumes "path_exists E (sys s) (dest_path_of create_path repo_path)"
  shows "do_repo E self create_path repo_path group_name project_settings migrate_hooks s =
           (Inr (Some False),
            \<lparr>sys = sys s,
             trace = trace s @ [Log ERROR (DestExists (dest_path_of create_path repo_path))]\<rparr>)"
  using assms by (simp add: do_repo_def dest_path_of_def split_beta Let_def logger_def emit_def)

theorem existing_destination_fails_witness:
  "path_exists sample_env (sys occupied_state) (dest_path_of ''/srv/git/eng'' ''/data/repos/foo.git'')
   \<and> do_repo sample_env sample_self ''/srv/git/eng'' ''/data/repos/foo.git'' ''eng''
         example_settings True occupied_state
       = (Inr (Some False),
          \<lparr>sys = [''/srv/git/eng'', ''/srv/git/eng/foo.git'', ''/data/repos/foo.git''],
           trace = [Log ERROR (DestExists ''/srv/git/eng/foo.git'')]\<rparr>)"
proof -
  have h: "path_exists sample_env (sys occupied_state)
             (dest_path_of ''/srv/git/eng'' ''/data/repos/foo.git'')"
    by (simp add: sample_defs prim_defs Let_def)
  have d: "dest_path_of ''/srv/git/eng'' ''/data/repos/foo.git'' = ''/srv/git/eng/foo.git''"
    by (simp add: prim_defs Let_def)
  from existing_destination_fails[OF h, of sample_self "''eng''" example_settings True] h
  show ?thesis by (simp add: d occupied_state_def)
qed



text \<open>Without the migration flag the \<^verbatim>\<open>try\<close> block ends with the ownership walk.\<close>

lemma no_migration_without_flag:
  "try_copy E self False repo_path dest_path s = copy_and_chown E self repo_path dest_path s"
  by (simp add: try_copy_def split: prod.splits option.splits)

subsection \<open>The run loop\<close>

lemma run_loop_append:
  "run_loop E self cp g ps mh (xs @ ys) a b s =
     (case run_loop E self cp g ps mh xs a b s of
        (Inl e, s') \<Rightarrow> (Inl e, s')
      | (Inr (a', b'), s') \<Rightarrow> run_loop E self cp g ps mh ys a' b' s')"
proof (induction xs arbitrary: a b s)
  case Nil
  show ?case by simp
next
  case (Cons x xs)
  show ?case
    by (simp add: Cons.IH split: prod.splits sum.splits)
qed

text \<open>
  A loop that ends normally has raised its two counters, together, by one for each path
  that existed when it was tested, and lowered neither.
\<close>

lemma run_loop_tally:
  "run_loop E self cp g ps mh paths a b s = (Inr (a', b'), s')
     \<Longrightarrow> a' + b' = a + b + existed_when_checked E self cp g ps mh paths s \<and> a \<le> a' \<and> b \<le> b'"
proof (induction paths arbitrary: a b s)
  case Nil
  then show ?case by simp
next
  case (Cons repo rest)
  show ?case
  proof (cases "path_exists E (sys s) repo")
    case False
    with Cons.prems have
      "run_loop E self cp g ps mh rest a b (logger ERROR (RepoPathMissing repo) s) = (Inr (a', b'), s')"
      by simp
    from Cons.IH[OF this] False show ?thesis by simp
  next
    case True
    obtain r s1 where d: "do_repo E self cp repo g ps mh s = (r, s1)"
      by (cases "do_repo E self cp repo g ps mh s")
    with Cons.prems True obtain v where r: "r = Inr v" by (cases r) simp_all
    show ?thesis
    proof (cases "v = Some True")
      case t: True
      with Cons.prems True d r have
        "run_loop E self cp g ps mh rest (a + 1) b s1 = (Inr (a', b'), s')" by simp
      from Cons.IH[OF this] True d show ?thesis by simp
    next
      case f: False
      with Cons.prems True d r have
        "run_loop E self cp g ps mh rest a (b + 1) s1 = (Inr (a', b'), s')" by simp
      from Cons.IH[OF this] True d show ?thesis by simp
    qed
  qed
qed

text \<open>
  C10. When \<^verbatim>\<open>run\<close> reaches its final tally (the group directory exists and the loop
  ends without an exception), the two numbers it logs add up to the number of input paths
  that existed at the time they were checked: a missing path raises neither counter, an
  existing one exactly one of them.
\<close>

theorem run_tally_invariant:
  assumes "path_exists E (sys s) (create_path_of (repos_dir self) g)"
    and "run_loop E self (create_path_of (repos_dir self) g) g ps mh paths 0 0
           (logger INFO (ImportingUnderGroup g) s) = (Inr (succeeded, failed), s2)"
  shows "snd (run E self g paths ps mh s) = logger INFO (DoneAll succeeded failed) s2
         \<and> succeeded + failed =
             existed_when_checked E self (create_path_of (repos_dir self) g) g ps mh paths
               (logger INFO (ImportingUnderGroup g) s)"
proof -
  have "sys (logger INFO (ImportingUnderGroup g) s) = sys s"
    by (simp add: logger_def emit_def)
  with assms have "snd (run E self g paths ps mh s) = logger INFO (DoneAll succeeded failed) s2"
    by (simp add: run_def Let_def)
  moreover from run_loop_tally[OF assms(2)]
  have "succeeded + failed =
          existed_when_checked E self (create_path_of (repos_dir self) g) g ps mh paths
            (logger INFO (ImportingUnderGroup g) s)" by simp
  ultimately show ?thesis by simp
qed

text \<open>
  Three paths: the repository (imported), a missing path, the repository again (its
  destination now exists). The tally is one imported, one failed; two paths existed.
\<close>

theorem run_tally_invariant_witness:
  "path_exists sample_env (sys sample_state) (create_path_of (repos_dir sample_self) ''eng'')
   \<and> fst (run_loop sample_env sample_self (create_path_of (repos_dir sample_self) ''eng'') ''eng''
            example_settings True [''/data/repos/foo.git'', ''/nope'', ''/data/repos/foo.git''] 0 0
            (logger INFO (ImportingUnderGroup ''eng'') sample_state)) = Inr (1, 1)
   \<and> existed_when_checked sample_env sample_self (create_path_of (repos_dir sample_self) ''eng'')
        ''eng'' example_settings True [''/data/repos/foo.git'', ''/nope'', ''/data/repos/foo.git'']
        (logger INFO (ImportingUnderGroup ''eng'') sample_state) = 2
   \<and> last (trace (snd (run sample_env sample_self ''eng''
                          [''/data/repos/foo.git'', ''/nope'', ''/data/repos/foo.git'']
                          example_settings True sample_state)))
       = Log INFO (DoneAll 1 1)"
proof -
  let ?cp = "create_path_of (repos_dir sample_self) ''eng''"
  let ?paths = "[''/data/repos/foo.git'', ''/nope'', ''/data/repos/foo.git'']"
  let ?all = "run_loop sample_env sample_self ?cp ''eng'' example_settings True ?paths 0 0
                (logger INFO (ImportingUnderGroup ''eng'') sample_state)"
  have grp: "path_exists sample_env (sys sample_state) ?cp"
    by code_simp
  have c2: "fst ?all = Inr (1, 1)"
    by code_simp
  then have all: "?all = (Inr (1, 1), snd ?all)"
    by (simp only: prod_eq_iff fst_conv snd_conv)
  note T = run_tally_invariant[OF grp all]
  from T[THEN conjunct2]
  have c3: "existed_when_checked sample_env sample_self ?cp ''eng'' example_settings True ?paths
              (logger INFO (ImportingUnderGroup ''eng'') sample_state) = 2"
    by (simp del: existed_when_checked.simps)
  have c4: "last (trace (snd (run sample_env sample_self ''eng'' ?paths example_settings True
                                sample_state))) = Log INFO (DoneAll 1 1)"
    unfolding T[THEN conjunct1] by (simp add: logger_def emit_def del: run_loop.simps)
  show ?thesis by (rule conjI[OF grp conjI[OF c2 conjI[OF c3 c4]]])
qed

text \<open>
  C1, as the code has it. A path that does not exist when the loop reaches it is skipped:
  an error naming it is logged, nothing else happens (no copy, no import, the world
  unchanged), neither counter moves, so it is not among the failures of the final tally, and
  the loop goes on with the remaining paths. When the final tally is reached, the exit
  status is 1 if the count of failed repositories is positive and 0 otherwise.
\<close>

theorem missing_path_skipped:
  "(run_loop E self cp g ps mh pre a b s = (Inr (a1, b1), s1) \<and> \<not> path_exists E (sys s1) repo
      \<longrightarrow> run_loop E self cp g ps mh (pre @ repo # post) a b s =
            run_loop E self cp g ps mh post a1 b1
              \<lparr>sys = sys s1, trace = trace s1 @ [Log ERROR (RepoPathMissing repo)]\<rparr>)
   \<and> (path_exists E (sys s0) (create_path_of (repos_dir self) g)
      \<and> run_loop E self (create_path_of (repos_dir self) g) g ps mh paths 0 0
           (logger INFO (ImportingUnderGroup g) s0) = (Inr (succeeded, failed), s2)
      \<longrightarrow> exit_status (fst (run E self g paths ps mh s0)) = (if failed > 0 then 1 else 0))"
proof (intro conjI impI)
  assume "run_loop E self cp g ps mh pre a b s = (Inr (a1, b1), s1) \<and> \<not> path_exists E (sys s1) repo"
  then show "run_loop E self cp g ps mh (pre @ repo # post) a b s =
            run_loop E self cp g ps mh post a1 b1
              \<lparr>sys = sys s1, trace = trace s1 @ [Log ERROR (RepoPathMissing repo)]\<rparr>"
    by (simp add: run_loop_append logger_def emit_def state_trace_update)
next
  assume h: "path_exists E (sys s0) (create_path_of (repos_dir self) g)
      \<and> run_loop E self (create_path_of (repos_dir self) g) g ps mh paths 0 0
           (logger INFO (ImportingUnderGroup g) s0) = (Inr (succeeded, failed), s2)"
  have "sys (logger INFO (ImportingUnderGroup g) s0) = sys s0"
    by (simp add: logger_def emit_def)
  with h show "exit_status (fst (run E self g paths ps mh s0)) = (if failed > 0 then 1 else 0)"
    by (simp add: run_def Let_def)
qed

text \<open>
  With the destination already there: the repository fails, the missing path after it is
  skipped, the repository fails again, and the run exits with status 1.
\<close>

theorem missing_path_skipped_witness:
  "\<not> path_exists sample_env
       (sys (snd (run_loop sample_env sample_self (create_path_of (repos_dir sample_self) ''eng'')
                    ''eng'' example_settings True [''/data/repos/foo.git''] 0 0
                    (logger INFO (ImportingUnderGroup ''eng'') occupied_state))))
       ''/nope''
   \<and> run_loop sample_env sample_self (create_path_of (repos_dir sample_self) ''eng'') ''eng''
        example_settings True ([''/data/repos/foo.git''] @ ''/nope'' # [''/data/repos/foo.git''])
        0 0 (logger INFO (ImportingUnderGroup ''eng'') occupied_state)
     = run_loop sample_env sample_self (create_path_of (repos_dir sample_self) ''eng'') ''eng''
        example_settings True [''/data/repos/foo.git''] 0 1
        \<lparr>sys = sys (snd (run_loop sample_env sample_self
                            (create_path_of (repos_dir sample_self) ''eng'') ''eng''
                            example_settings True [''/data/repos/foo.git''] 0 0
                            (logger INFO (ImportingUnderGroup ''eng'') occupied_state))),
         trace = trace (snd (run_loop sample_env sample_self
                            (create_path_of (repos_dir sample_self) ''eng'') ''eng''
                            example_settings True [''/data/repos/foo.git''] 0 0
                            (logger INFO (ImportingUnderGroup ''eng'') occupied_state)))
                 @ [Log ERROR (RepoPathMissing ''/nope'')]\<rparr>
   \<and> exit_status (fst (run sample_env sample_self ''eng''
                          [''/data/repos/foo.git'', ''/nope'', ''/data/repos/foo.git'']
                          example_settings True occupied_state)) = 1"
proof -
  let ?cp = "create_path_of (repos_dir sample_self) ''eng''"
  let ?s0 = "logger INFO (ImportingUnderGroup ''eng'') occupied_state"
  let ?pre = "run_loop sample_env sample_self ?cp ''eng'' example_settings True
                [''/data/repos/foo.git''] 0 0 ?s0"
  let ?all = "run_loop sample_env sample_self ?cp ''eng'' example_settings True
                [''/data/repos/foo.git'', ''/nope'', ''/data/repos/foo.git''] 0 0 ?s0"
  have "fst ?pre = Inr (0, 1)"
    by code_simp
  then have pre: "?pre = (Inr (0, 1), snd ?pre)"
    by (simp only: prod_eq_iff fst_conv snd_conv)
  have miss: "\<not> path_exists sample_env (sys (snd ?pre)) ''/nope''"
    by code_simp
  have grp: "path_exists sample_env (sys occupied_state) ?cp"
    by code_simp
  have "fst ?all = Inr (0, 2)"
    by code_simp
  then have all: "?all = (Inr (0, 2), snd ?all)"
    by (simp only: prod_eq_iff fst_conv snd_conv)
  note T = missing_path_skipped[where E = sample_env and self = sample_self
      and cp = ?cp and g = "''eng''" and ps = example_settings and mh = True
      and pre = "[''/data/repos/foo.git'']" and a = 0 and b = 0 and s = ?s0
      and ?a1.0 = 0 and ?b1.0 = 1 and ?s1.0 = "snd ?pre" and repo = "''/nope''"
      and post = "[''/data/repos/foo.git'']" and ?s0.0 = occupied_state
      and paths = "[''/data/repos/foo.git'', ''/nope'', ''/data/repos/foo.git'']"
      and succeeded = 0 and failed = 2 and ?s2.0 = "snd ?all"]
  note c2 = T[THEN conjunct1, THEN mp, OF conjI[OF pre miss]]
  from T[THEN conjunct2, THEN mp, OF conjI[OF grp all]]
  have c3: "exit_status (fst (run sample_env sample_self ''eng''
                          [''/data/repos/foo.git'', ''/nope'', ''/data/repos/foo.git'']
                          example_settings True occupied_state)) = 1"
    by (simp del: run_loop.simps)
  show ?thesis by (rule conjI[OF miss conjI[OF c2 c3]])
qed

text \<open>
  C1, as stated, fails: a run over one missing path logs the error, counts no failure in its
  tally and returns normally, with exit status 0.
\<close>

theorem missing_path_not_tallied:
  "\<not> path_exists sample_env (sys sample_state) ''/nope''
   \<and> run sample_env sample_self ''eng'' [''/nope''] example_settings True sample_state
       = (Inr (),
          \<lparr>sys = [''/srv/git/eng'', ''/data/repos/foo.git''],
           trace = [Log INFO (ImportingUnderGroup ''eng''),
                    Log ERROR (RepoPathMissing ''/nope''),
                    Log INFO (DoneAll 0 0)]\<rparr>)
   \<and> exit_status (fst (run sample_env sample_self ''eng'' [''/nope''] example_settings True
                          sample_state)) = 0"
  by (simp add: sample_defs prim_defs step_defs Let_def)

subsection \<open>A failed save\<close>

text \<open>
  C3, as the code has it. When a repository has been copied and imported, its project found
  and its settings staged, and \<^verbatim>\<open>project.save()\<close> then raises: the exception is caught
  in \<^verbatim>\<open>update_project_settings\<close>, whose last act is the logging call for the failure;
  \<^verbatim>\<open>do_repo\<close> returns \<^verbatim>\<open>True\<close> all the same, so the run is not aborted, the loop
  counts the repository as imported, not as failed, and goes on with the remaining paths.
\<close>

theorem save_failure_logged_repo_succeeds:
  assumes "path_exists E (sys s) repo"
    and "\<not> path_exists E (sys s) (dest_path_of cp repo)"
    and "try_copy E self mh repo (dest_path_of cp repo)
           (logger INFO (Copying repo (dest_path_of cp repo)) s) = (None, s2)"
    and "import_repo E s2 = (Inr True, s3)"
    and "get_gitlab_project E g (project_name_of repo) s3 = (Inr (Some proj), s4)"
    and "commits E proj (sys s4) = Inr n"
    and "stage_settings ps proj False = Inr (p, True)"
    and "save E p (sys s4) = (Inl ex, w)"
  shows "do_repo E self cp repo g ps mh s =
           (Inr (Some True),
            \<lparr>sys = w,
             trace = trace s4 @
               [Commits (path_with_namespace proj),
                if n < 1 then Log WARNING (NoCommits (path_with_namespace proj))
                else Log INFO (CreatedWithCommits n),
                Log INFO (UpdatingSettings (path_with_namespace proj)),
                Save (path_with_namespace p),
                Log ERROR (SavingFailed ex)]\<rparr>)
         \<and> run_loop E self cp g ps mh (repo # rest) a b s =
             run_loop E self cp g ps mh rest (a + 1) b
               (snd (do_repo E self cp repo g ps mh s))"
proof -
  have d: "do_repo E self cp repo g ps mh s =
           (Inr (Some True),
            \<lparr>sys = w,
             trace = trace s4 @
               [Commits (path_with_namespace proj),
                if n < 1 then Log WARNING (NoCommits (path_with_namespace proj))
                else Log INFO (CreatedWithCommits n),
                Log INFO (UpdatingSettings (path_with_namespace proj)),
                Save (path_with_namespace p),
                Log ERROR (SavingFailed ex)]\<rparr>)"
    using assms(2-8)
    by (simp add: do_repo_def dest_path_of_def project_name_of_def split_beta Let_def
          update_project_settings_def logger_def emit_def called_def)
  with assms(1) show ?thesis by simp
qed

theorem save_failure_logged_repo_succeeds_witness:
  "path_exists failing_save_env (sys sample_state) ''/data/repos/foo.git''
   \<and> \<not> path_exists failing_save_env (sys sample_state)
         (dest_path_of ''/srv/git/eng'' ''/data/repos/foo.git'')
   \<and> fst (do_repo failing_save_env sample_self ''/srv/git/eng'' ''/data/repos/foo.git'' ''eng''
            example_settings True sample_state) = Inr (Some True)
   \<and> last (trace (snd (do_repo failing_save_env sample_self ''/srv/git/eng''
                          ''/data/repos/foo.git'' ''eng'' example_settings True sample_state)))
       = Log ERROR (SavingFailed ''GitlabUpdateError'')"
proof -
  let ?E = failing_save_env
  let ?repo = "''/data/repos/foo.git''"
  let ?dest = "dest_path_of ''/srv/git/eng'' ?repo"
  let ?t = "try_copy ?E sample_self True ?repo ?dest (logger INFO (Copying ?repo ?dest) sample_state)"
  let ?p = "sample_project\<lparr>attrs := (attrs sample_project)
              (''visibility_level'' \<mapsto> PInt 20, ''issues_enabled'' \<mapsto> PBool False)\<rparr>"
  have imp: "import_repo ?E x = (Inr True, snd (import_repo ?E x))" for x
    by (simp add: sample_defs step_defs Let_def)
  have get: "get_gitlab_project ?E ''eng'' (project_name_of ?repo) x
               = (Inr (Some sample_project), snd (get_gitlab_project ?E ''eng'' (project_name_of ?repo) x))"
    for x
    by (simp add: sample_defs prim_defs step_defs Let_def)
  have com: "commits ?E sample_project x = Inr 1" for x
    by (simp add: sample_defs)
  have sav: "save ?E ?p x = (Inl ''GitlabUpdateError'', x)" for x
    by (simp add: sample_defs)
  have h1: "path_exists ?E (sys sample_state) ?repo"
    by code_simp
  have h2: "\<not> path_exists ?E (sys sample_state) ?dest"
    by code_simp
  have "fst ?t = None"
    by code_simp
  then have h3: "?t = (None, snd ?t)"
    by (simp only: prod_eq_iff fst_conv snd_conv)
  have h7: "stage_settings example_settings sample_project False = Inr (?p, True)"
    by (simp add: sample_defs step_defs)
  note T = save_failure_logged_repo_succeeds[OF h1 h2 h3 imp get com h7 sav, THEN conjunct1]
  have c3: "fst (do_repo ?E sample_self ''/srv/git/eng'' ?repo ''eng'' example_settings True
                   sample_state) = Inr (Some True)"
    unfolding T by (simp only: fst_conv)
  have c4: "last (trace (snd (do_repo ?E sample_self ''/srv/git/eng'' ?repo ''eng''
                                example_settings True sample_state)))
              = Log ERROR (SavingFailed ''GitlabUpdateError'')"
    unfolding T by (simp only: snd_conv state.simps last_appendR last.simps list.simps if_False if_True
                         not_Cons_self2 not_False_eq_True simp_thms)
  show ?thesis by (rule conjI[OF h1 conjI[OF h2 conjI[OF c3 c4]]])
qed

text \<open>
  C3, as stated, fails: against a server that refuses the save, the one repository of the
  run is counted as imported, none as failed, and the exit status is 0.
\<close>

theorem save_failure_counted_as_success:
  "exit_status (fst (run failing_save_env sample_self ''eng'' [''/data/repos/foo.git'']
                       example_settings True sample_state)) = 0
   \<and> Log ERROR (SavingFailed ''GitlabUpdateError'')
        \<in> set (trace (snd (run failing_save_env sample_self ''eng'' [''/data/repos/foo.git'']
                              example_settings True sample_state)))
   \<and> last (trace (snd (run failing_save_env sample_self ''eng'' [''/data/repos/foo.git'']
                          example_settings True sample_state)))
       = Log INFO (DoneAll 1 0)"
  by code_simp

end
